theory Spec2Isabelle
  imports Complex_Main
begin

section \<open>JavaScript values used by the timer\<close>

text \<open>
  A JavaScript Number is modelled as a real number, one of the two infinities, or
  \<open>NaN\<close>. Binary64 rounding and overflow are left out: finite values are exact
  reals. The operations below follow the IEEE rules of the language for \<open>NaN\<close>
  and the infinities: arithmetic with \<open>NaN\<close> gives \<open>NaN\<close>, every comparison with
  \<open>NaN\<close> is false, \<open>Math.min\<close> and \<open>Math.max\<close> return \<open>NaN\<close> when an argument
  is \<open>NaN\<close>.
\<close>

datatype number = NaN | NegInf | Fin real | PosInf

fun num_mul :: "number \<Rightarrow> number \<Rightarrow> number" where
  "num_mul NaN y = NaN"
| "num_mul x NaN = NaN"
| "num_mul (Fin a) (Fin b) = Fin (a * b)"
| "num_mul (Fin a) PosInf = (if a = 0 then NaN else if 0 < a then PosInf else NegInf)"
| "num_mul (Fin a) NegInf = (if a = 0 then NaN else if 0 < a then NegInf else PosInf)"
| "num_mul PosInf (Fin b) = (if b = 0 then NaN else if 0 < b then PosInf else NegInf)"
| "num_mul NegInf (Fin b) = (if b = 0 then NaN else if 0 < b then NegInf else PosInf)"
| "num_mul PosInf PosInf = PosInf"
| "num_mul PosInf NegInf = NegInf"
| "num_mul NegInf PosInf = NegInf"
| "num_mul NegInf NegInf = PosInf"

fun num_sub :: "number \<Rightarrow> number \<Rightarrow> number" where
  "num_sub NaN y = NaN"
| "num_sub x NaN = NaN"
| "num_sub (Fin a) (Fin b) = Fin (a - b)"
| "num_sub (Fin a) PosInf = NegInf"
| "num_sub (Fin a) NegInf = PosInf"
| "num_sub PosInf (Fin b) = PosInf"
| "num_sub NegInf (Fin b) = NegInf"
| "num_sub PosInf PosInf = NaN"
| "num_sub PosInf NegInf = PosInf"
| "num_sub NegInf PosInf = NegInf"
| "num_sub NegInf NegInf = NaN"

text \<open>The comparison \<open>x <= y\<close> of the language.\<close>

fun num_le :: "number \<Rightarrow> number \<Rightarrow> bool" where
  "num_le NaN y = False"
| "num_le x NaN = False"
| "num_le NegInf y = True"
| "num_le x PosInf = True"
| "num_le (Fin a) (Fin b) = (a \<le> b)"
| "num_le (Fin a) NegInf = False"
| "num_le PosInf (Fin b) = False"
| "num_le PosInf NegInf = False"

fun Math_min :: "number \<Rightarrow> number \<Rightarrow> number" where
  "Math_min NaN y = NaN"
| "Math_min x NaN = NaN"
| "Math_min x y = (if num_le x y then x else y)"

fun Math_max :: "number \<Rightarrow> number \<Rightarrow> number" where
  "Math_max NaN y = NaN"
| "Math_max x NaN = NaN"
| "Math_max x y = (if num_le x y then y else x)"

text \<open>
  The errors a call of the host can raise in the modelled code: \<open>toISOString\<close> of
  an invalid date, \<open>JSON.parse\<close> of malformed text, a refused access to
  \<open>localStorage\<close>.
\<close>

datatype error = RangeError | SyntaxError | SecurityError

text \<open>
  An ISO timestamp string is modelled by the instant it renders, in milliseconds since
  the epoch (\<open>toISOString\<close> is injective on valid dates). \<open>new Date(v).toISOString()\<close>:
  the constructor clips \<open>v\<close> (not finite, or beyond 8.64e15 in absolute value, is an
  invalid date; otherwise the fraction is cut off towards zero), and
  \<open>toISOString\<close> throws a \<open>RangeError\<close> on an invalid date.
\<close>

datatype isostring = ISO int

fun toISOString :: "number \<Rightarrow> error + isostring" where
  "toISOString (Fin v) =
     (if \<bar>v\<bar> \<le> 8640000000000000
      then Inr (ISO (if 0 \<le> v then \<lfloor>v\<rfloor> else \<lceil>v\<rceil>))
      else Inl RangeError)"
| "toISOString v = Inl RangeError"

section \<open>Data of the application\<close>

text \<open>The mode strings \<open>"focus"\<close>, \<open>"short"\<close> and \<open>"long"\<close>.\<close>

datatype mode = Focus | Short | Long

text \<open>
  \<open>state.settings\<close>, with the fields holding numbers and booleans as
  \<open>defaults\<close> and \<open>applySettingsFromUI\<close> write them.
\<close>

record settings =
  theme :: string
  focusMin :: number
  shortMin :: number
  longMin :: number
  goalSessions :: number
  autoStart :: bool

definition defaults :: settings where
  "defaults = \<lparr>theme = ''dark'', focusMin = Fin 25, shortMin = Fin 5, longMin = Fin 15,
     goalSessions = Fin 8, autoStart = False\<rparr>"

text \<open>
  An element of \<open>state.history\<close>. The fields \<open>id\<close> and \<open>mode\<close> of the source are
  \<open>entry_id\<close> and \<open>entry_mode\<close> here.
\<close>

record entry =
  entry_id :: string
  day :: string
  entry_mode :: mode
  duration :: number
  startedAt :: isostring
  endedAt :: isostring

text \<open>
  JSON values, as \<open>JSON.parse\<close> returns them and \<open>JSON.stringify\<close> takes them. An
  object lists its members in the order of the text.
\<close>

datatype json =
  JNull | JBool bool | JNum real | JStr string | JArr "json list" | JObj "(string \<times> json) list"

text \<open>
  A text kept in \<open>localStorage\<close> is used by the code in two ways only: tested for being
  empty, and given to \<open>JSON.parse\<close>. It is modelled by what \<open>JSON.parse\<close> does with it:
  \<open>Json v\<close> is a text that parses to \<open>v\<close>, \<open>Text t\<close> is a text \<open>t\<close> that
  \<open>JSON.parse\<close> rejects with a \<open>SyntaxError\<close> (the empty text is one).
\<close>

datatype item = Text string | Json json

fun JSON_parse :: "item \<Rightarrow> error + json" where
  "JSON_parse (Json v) = Inr v"
| "JSON_parse (Text t) = Inl SyntaxError"

text \<open>
  What the host hands to one call of the code: the reading of \<open>performance.now()\<close>, the
  readings of the wall clock at each place the code asks for it (in milliseconds since
  the epoch), the identifier \<open>crypto.randomUUID()\<close> or \<open>String(Date.now())\<close>, and the
  string \<open>todayKey()\<close> builds from the local date.
\<close>

record env =
  perf_now :: real
  date_ended :: int
  date_now :: int
  date_started :: int
  new_id :: string
  today :: string

text \<open>
  The object \<open>state\<close>, followed by the part of the host the code acts on:
  \<open>timers\<close> are the identifiers of the live \<open>setInterval(tick, 250)\<close> schedules, and the
  two slots are what the code has last written to \<open>localStorage\<close> under \<open>SETTINGS_KEY\<close>
  and \<open>HISTORY_KEY\<close> since the page was loaded (\<open>None\<close>: nothing yet). The history
  slot keeps the list that \<open>JSON.stringify\<close> was given. The elements of
  \<open>state.history\<close> are entries as \<open>tick\<close> writes them. Writes to the page (\<open>el\<close>),
  \<open>beep\<close> and \<open>updateBottom\<close> change neither the object nor this part of the host and
  are left out; \<open>localStorage\<close> is taken to accept every write.
\<close>

record state =
  mode :: mode
  running :: bool
  totalSec :: number
  remainingSec :: number
  lastPerf :: "real option"
  interval :: "nat option"
  phaseStartISO :: "isostring option"
  settings :: settings
  history :: "entry list"
  timers :: "nat list"
  stored_settings :: "item option"
  stored_history :: "entry list option"

section \<open>Storage\<close>

text \<open>\<open>JSON.stringify\<close> writes \<open>NaN\<close> and the infinities as \<open>null\<close>.\<close>

fun json_of_number :: "number \<Rightarrow> json" where
  "json_of_number (Fin r) = JNum r"
| "json_of_number v = JNull"

definition json_of_settings :: "settings \<Rightarrow> json" where
  "json_of_settings st = JObj
     [(''theme'', JStr (theme st)),
      (''focusMin'', json_of_number (focusMin st)),
      (''shortMin'', json_of_number (shortMin st)),
      (''longMin'', json_of_number (longMin st)),
      (''goalSessions'', json_of_number (goalSessions st)),
      (''autoStart'', JBool (autoStart st))]"

definition saveSettings :: "state \<Rightarrow> state" where
  "saveSettings s = s\<lparr>stored_settings := Some (Json (json_of_settings (settings s)))\<rparr>"

definition saveHistory :: "state \<Rightarrow> state" where
  "saveHistory s = s\<lparr>stored_history := Some (history s)\<rparr>"

text \<open>Decimal digits of a natural number: the index keys of an array or a string.\<close>

fun digits_of :: "nat \<Rightarrow> nat \<Rightarrow> string" where
  "digits_of 0 n = ''''"
| "digits_of (Suc fuel) n =
     (if n < 10 then [char_of (48 + n)]
      else digits_of fuel (n div 10) @ [char_of (48 + n mod 10)])"

definition index_key :: "nat \<Rightarrow> string" where
  "index_key n = digits_of (Suc n) n"

text \<open>
  The own enumerable properties the spread \<open>{...v}\<close> copies: the members of an
  object (a later member with the same key wins), the elements of an array and the
  characters of a string under their indices, nothing for a number, a boolean or
  \<open>null\<close>.
\<close>

fun props :: "json \<Rightarrow> (string \<rightharpoonup> json)" where
  "props (JObj kvs) = map_of (rev kvs)"
| "props (JArr xs) = map_of (zip (map index_key [0..<length xs]) xs)"
| "props (JStr cs) = map_of (zip (map index_key [0..<length cs]) (map (\<lambda>c. JStr [c]) cs))"
| "props v = Map.empty"

definition defaults_obj :: "string \<rightharpoonup> json" where
  "defaults_obj = props (json_of_settings defaults)"

text \<open>
  \<open>loadSettings\<close>, on the outcome of \<open>localStorage.getItem(SETTINGS_KEY)\<close>. The result
  is the object \<open>{...defaults, ...JSON.parse(raw)}\<close> as a map from keys to values;
  every exception raised in the body is caught.
\<close>

definition loadSettings :: "error + item option \<Rightarrow> (string \<rightharpoonup> json)" where
  "loadSettings got =
     (case got of
        Inl e \<Rightarrow> defaults_obj
      | Inr raw \<Rightarrow>
          (if raw = None \<or> raw = Some (Text '''') then defaults_obj
           else (case JSON_parse (the raw) of
                   Inl e \<Rightarrow> defaults_obj
                 | Inr v \<Rightarrow> defaults_obj ++ props v)))"

section \<open>Timer\<close>

definition modeToMinutes :: "state \<Rightarrow> mode \<Rightarrow> number" where
  "modeToMinutes s m =
     (if m = Focus then focusMin (settings s)
      else if m = Short then shortMin (settings s)
      else longMin (settings s))"

text \<open>
  \<open>setInterval\<close> returns a positive identifier that no live schedule has, and adds the
  schedule; \<open>clearInterval\<close> removes it.
\<close>

definition fresh_id :: "nat list \<Rightarrow> nat" where
  "fresh_id ts = Suc (fold max ts 0)"

text \<open>The truth value of \<open>state.interval\<close>: \<open>null\<close> and \<open>0\<close> are false.\<close>

fun truthy_id :: "nat option \<Rightarrow> bool" where
  "truthy_id None = False"
| "truthy_id (Some i) = (i \<noteq> 0)"

definition start :: "env \<Rightarrow> state \<Rightarrow> state" where
  "start e s =
     (if running s then s
      else
        let s1 = s\<lparr>running := True\<rparr>;
            s2 = (if phaseStartISO s1 = None
                  then s1\<lparr>phaseStartISO := Some (ISO (date_started e))\<rparr> else s1)
        in if \<not> truthy_id (interval s2)
           then s2\<lparr>interval := Some (fresh_id (timers s2)),
                   timers := fresh_id (timers s2) # timers s2\<rparr>
           else s2)"

definition pause :: "state \<Rightarrow> state" where
  "pause s =
     (let s1 = s\<lparr>running := False\<rparr>
      in if truthy_id (interval s1)
         then s1\<lparr>timers := removeAll (the (interval s1)) (timers s1), interval := None\<rparr>
         else s1)"

definition resetTimer :: "bool \<Rightarrow> state \<Rightarrow> state" where
  "resetTimer keepMode s =
     (let s1 = pause s;
          s2 = s1\<lparr>lastPerf := None, phaseStartISO := None\<rparr>;
          s3 = (if \<not> keepMode then s2\<lparr>mode := Focus\<rparr> else s2);
          s4 = s3\<lparr>totalSec := num_mul (modeToMinutes s3 (mode s3)) (Fin 60)\<rparr>
      in s4\<lparr>remainingSec := totalSec s4\<rparr>)"

definition setMode :: "mode \<Rightarrow> state \<Rightarrow> state" where
  "setMode m s =
     (let s1 = s\<lparr>mode := m\<rparr>
      in if \<not> running s1 then resetTimer True s1 else s1)"

text \<open>
  The start of the phase that \<open>tick\<close> logs:
  \<open>state.phaseStartISO || new Date(Date.now() - state.totalSec*1000).toISOString()\<close>.
\<close>

definition started_iso :: "env \<Rightarrow> state \<Rightarrow> error + isostring" where
  "started_iso e s =
     (case phaseStartISO s of
        Some p \<Rightarrow> Inr p
      | None \<Rightarrow> toISOString (num_sub (Fin (of_int (date_now e)))
                                (num_mul (totalSec s) (Fin 1000))))"

text \<open>
  \<open>tick\<close>. An exception leaves \<open>tick\<close> with the state as changed so far: the result is
  \<open>Inl\<close> of the error and that state. Of the calls modelled, the one that can throw is
  \<open>toISOString\<close> on the date computed when \<open>state.phaseStartISO\<close> is not set.
\<close>

definition tick :: "env \<Rightarrow> state \<Rightarrow> (error \<times> state) + state" where
  "tick e s =
     (if \<not> running s then Inr s
      else
        let now = perf_now e;
            s1 = (if lastPerf s = None then s\<lparr>lastPerf := Some now\<rparr> else s);
            dt = (now - the (lastPerf s1)) / 1000;
            s2 = s1\<lparr>lastPerf := Some now\<rparr>;
            s3 = s2\<lparr>remainingSec := num_sub (remainingSec s2) (Fin dt)\<rparr>
        in if num_le (remainingSec s3) (Fin 0) then
             (let endedISO = ISO (date_ended e) in
              case started_iso e s3 of
                Inl err \<Rightarrow> Inl (err, s3)
              | Inr startedISO \<Rightarrow>
                  let h = \<lparr>entry_id = new_id e, day = today e, entry_mode = mode s3,
                             duration = totalSec s3, startedAt = startedISO,
                             endedAt = endedISO\<rparr> # history s3;
                      s4 = s3\<lparr>history := (if 200 < length h then take 200 h else h)\<rparr>;
                      s5 = saveHistory s4;
                      s6 = (if mode s5 = Focus then setMode Short s5 else setMode Focus s5);
                      s7 = s6\<lparr>totalSec := num_mul (modeToMinutes s6 (mode s6)) (Fin 60)\<rparr>;
                      s8 = s7\<lparr>remainingSec := totalSec s7,
                               phaseStartISO := Some (ISO (date_started e)),
                               lastPerf := None\<rparr>
                  in Inr (if \<not> autoStart (settings s8) then pause s8 else s8))
           else Inr s3)"

section \<open>Settings form\<close>

text \<open>
  \<open>Number(v)\<close> for a string \<open>v\<close>: white space around the literal is dropped, the
  empty string is \<open>0\<close>, a literal is a signed decimal number with an optional
  fraction and exponent, \<open>Infinity\<close> with an optional sign, or an unsigned integer in
  base 16, 8 or 2 after \<open>0x\<close>, \<open>0o\<close> or \<open>0b\<close>; every other string is \<open>NaN\<close>.
  Strings are ASCII text here, so white space is the six ASCII characters.
\<close>

definition is_ws :: "char \<Rightarrow> bool" where
  "is_ws c = (of_char c \<in> {9, 10, 11, 12, 13, 32 :: nat})"

definition trim :: "string \<Rightarrow> string" where
  "trim s = rev (dropWhile is_ws (rev (dropWhile is_ws s)))"

definition digit_val :: "char \<Rightarrow> nat option" where
  "digit_val c =
     (let n = of_char c :: nat
      in if 48 \<le> n \<and> n \<le> 57 then Some (n - 48)
         else if 97 \<le> n \<and> n \<le> 102 then Some (n - 87)
         else if 65 \<le> n \<and> n \<le> 70 then Some (n - 55)
         else None)"

definition is_digit :: "nat \<Rightarrow> char \<Rightarrow> bool" where
  "is_digit b c = (case digit_val c of Some d \<Rightarrow> d < b | None \<Rightarrow> False)"

definition digits_value :: "nat \<Rightarrow> string \<Rightarrow> nat" where
  "digits_value b cs = foldl (\<lambda>acc c. acc * b + the (digit_val c)) 0 cs"

definition radix_of :: "char \<Rightarrow> nat option" where
  "radix_of c =
     (if c = CHR ''x'' \<or> c = CHR ''X'' then Some 16
      else if c = CHR ''o'' \<or> c = CHR ''O'' then Some 8
      else if c = CHR ''b'' \<or> c = CHR ''B'' then Some 2
      else None)"

fun radix_literal :: "string \<Rightarrow> nat option" where
  "radix_literal (c0 # c1 # ds) =
     (case radix_of c1 of
        Some b \<Rightarrow>
          (if c0 = CHR ''0'' \<and> ds \<noteq> [] \<and> list_all (is_digit b) ds
           then Some (digits_value b ds) else None)
      | None \<Rightarrow> None)"
| "radix_literal s = None"

text \<open>A sign, if there is one, and the rest.\<close>

fun split_sign :: "string \<Rightarrow> bool \<times> string" where
  "split_sign [] = (False, [])"
| "split_sign (c # cs) =
     (if c = CHR ''-'' then (True, cs) else if c = CHR ''+'' then (False, cs)
      else (False, c # cs))"

fun exponent_part :: "string \<Rightarrow> int option" where
  "exponent_part [] = Some 0"
| "exponent_part (c # cs) =
     (if c = CHR ''e'' \<or> c = CHR ''E'' then
        (case split_sign cs of
           (neg, ds) \<Rightarrow>
             (if ds \<noteq> [] \<and> list_all (is_digit 10) ds
              then Some (if neg then - int (digits_value 10 ds) else int (digits_value 10 ds))
              else None))
      else None)"

definition scale10 :: "nat \<Rightarrow> int \<Rightarrow> real" where
  "scale10 m k = (if 0 \<le> k then real m * 10 ^ nat k else real m / 10 ^ nat (- k))"

definition unsigned_decimal :: "string \<Rightarrow> number option" where
  "unsigned_decimal u =
     (if u = ''Infinity'' then Some PosInf
      else
        let ip = takeWhile (is_digit 10) u;
            r1 = dropWhile (is_digit 10) u;
            dot = (r1 \<noteq> [] \<and> hd r1 = CHR ''.'');
            fp = (if dot then takeWhile (is_digit 10) (tl r1) else []);
            r2 = (if dot then dropWhile (is_digit 10) (tl r1) else r1)
        in if ip = [] \<and> fp = [] then None
           else (case exponent_part r2 of
                   None \<Rightarrow> None
                 | Some ex \<Rightarrow>
                     Some (Fin (scale10 (digits_value 10 (ip @ fp)) (ex - int (length fp))))))"

fun negate :: "number \<Rightarrow> number" where
  "negate NaN = NaN"
| "negate NegInf = PosInf"
| "negate (Fin r) = Fin (- r)"
| "negate PosInf = NegInf"

definition StringToNumber :: "string \<Rightarrow> number" where
  "StringToNumber s =
     (let t = trim s
      in if t = [] then Fin 0
         else (case radix_literal t of
                 Some n \<Rightarrow> Fin (real n)
               | None \<Rightarrow>
                   (case split_sign t of
                      (neg, u) \<Rightarrow>
                        (case unsigned_decimal u of
                           None \<Rightarrow> NaN
                         | Some v \<Rightarrow> if neg then negate v else v))))"

text \<open>The values of the inputs of the settings form and the state of the checkbox.\<close>

record ui =
  focusInput :: string
  shortInput :: string
  longInput :: string
  goalInput :: string
  autoStartToggle :: bool

text \<open>\<open>Number(v || d)\<close> for the value \<open>v\<close> of an input: the empty string is false.\<close>

definition Number_or :: "string \<Rightarrow> real \<Rightarrow> number" where
  "Number_or v d = (if v = [] then Fin d else StringToNumber v)"

definition clamp :: "number \<Rightarrow> number \<Rightarrow> number \<Rightarrow> number" where
  "clamp v a b = Math_max a (Math_min b v)"

definition applySettingsFromUI :: "ui \<Rightarrow> state \<Rightarrow> state" where
  "applySettingsFromUI u s =
     (let s1 = s\<lparr>settings := (settings s)
                 \<lparr>focusMin := clamp (Number_or (focusInput u) 25) (Fin 1) (Fin 120),
                  shortMin := clamp (Number_or (shortInput u) 5) (Fin 1) (Fin 60),
                  longMin := clamp (Number_or (longInput u) 15) (Fin 1) (Fin 90),
                  goalSessions := clamp (Number_or (goalInput u) 8) (Fin 1) (Fin 30),
                  autoStart := autoStartToggle u\<rparr>\<rparr>;
          s2 = saveSettings s1
      in if \<not> running s2 then resetTimer True s2 else s2)"

section \<open>Start of the application and runs\<close>

text \<open>
  The object \<open>state\<close> as the script creates it, for the settings and the history that
  were loaded, and the state after \<open>init()\<close>.
\<close>

definition state0 :: "settings \<Rightarrow> entry list \<Rightarrow> state" where
  "state0 st h =
     \<lparr>mode = Focus, running = False, totalSec = Fin (25 * 60), remainingSec = Fin (25 * 60),
      lastPerf = None, interval = None, phaseStartISO = None, settings = st, history = h,
      timers = [], stored_settings = None, stored_history = None\<rparr>"

definition init :: "settings \<Rightarrow> entry list \<Rightarrow> state" where
  "init st h = resetTimer True (setMode Focus (state0 st h))"

text \<open>
  The calls the page makes on the timer. An exception that leaves \<open>tick\<close> is reported
  by the host, which goes on with the state as \<open>tick\<close> left it.
\<close>

datatype op = Start env | Pause | Reset bool | SetMode mode | Tick env | ApplySettings ui

fun step :: "op \<Rightarrow> state \<Rightarrow> state" where
  "step (Start e) s = start e s"
| "step Pause s = pause s"
| "step (Reset keepMode) s = resetTimer keepMode s"
| "step (SetMode m) s = setMode m s"
| "step (Tick e) s = (case tick e s of Inl (err, s') \<Rightarrow> s' | Inr s' \<Rightarrow> s')"
| "step (ApplySettings u) s = applySettingsFromUI u s"

fun run :: "op list \<Rightarrow> state \<Rightarrow> state" where
  "run [] s = s"
| "run (x # xs) s = run xs (step x s)"

section \<open>Predicates of the statements\<close>

definition in_range :: "number \<Rightarrow> real \<Rightarrow> real \<Rightarrow> bool" where
  "in_range v a b = (num_le (Fin a) v \<and> num_le v (Fin b))"

text \<open>Settings within the ranges of the form.\<close>

definition valid_settings :: "settings \<Rightarrow> bool" where
  "valid_settings st =
     (in_range (focusMin st) 1 120 \<and> in_range (shortMin st) 1 60 \<and>
      in_range (longMin st) 1 90 \<and> in_range (goalSessions st) 1 30)"

text \<open>A value of an input that is empty or that \<open>Number\<close> reads as a number.\<close>

definition numeric :: "string \<Rightarrow> bool" where
  "numeric v = (v = [] \<or> StringToNumber v \<noteq> NaN)"

definition numeric_ui :: "ui \<Rightarrow> bool" where
  "numeric_ui u =
     (numeric (focusInput u) \<and> numeric (shortInput u) \<and> numeric (longInput u) \<and>
      numeric (goalInput u))"

text \<open>The elapsed time \<open>dt\<close> that \<open>tick\<close> computes, in seconds.\<close>

definition elapsed :: "env \<Rightarrow> state \<Rightarrow> real" where
  "elapsed e s = (case lastPerf s of None \<Rightarrow> 0 | Some l \<Rightarrow> (perf_now e - l) / 1000)"

text \<open>The phase is over at this tick: the test \<open>state.remainingSec <= 0\<close> succeeds.\<close>

definition completes :: "env \<Rightarrow> state \<Rightarrow> bool" where
  "completes e s = num_le (num_sub (remainingSec s) (Fin (elapsed e s))) (Fin 0)"





section \<open>Sample inputs\<close>

text \<open>
  A host whose clocks read \<open>t\<close> (\<open>performance.now()\<close>) and \<open>w\<close> (the wall clock), and the
  state of a focus phase that was started and has had its first tick.
\<close>

definition host_at :: "real \<Rightarrow> int \<Rightarrow> env" where
  "host_at t w = \<lparr>perf_now = t, date_ended = w, date_now = w, date_started = w,
     new_id = ''id'', today = ''2024-05-01''\<rparr>"

definition counting_focus :: state where
  "counting_focus = run [Start (host_at 0 1000), Tick (host_at 0 1000)] (init defaults [])"

text \<open>
  The same state with a log of 200 entries, and the state reached when the form was
  applied with the automatic start switched on before the phase was started.
\<close>

definition filled_log :: state where
  "filled_log = counting_focus\<lparr>history := replicate 200
     \<lparr>entry_id = ''old'', day = ''2024-04-30'', entry_mode = Short, duration = Fin 300,
      startedAt = ISO 0, endedAt = ISO 300000\<rparr>\<rparr>"

definition counting_auto :: state where
  "counting_auto = run
     [ApplySettings \<lparr>focusInput = [], shortInput = [], longInput = [], goalInput = [],
        autoStartToggle = True\<rparr>,
      Start (host_at 0 1000), Tick (host_at 0 1000)] (init defaults [])"

text \<open>Values of the settings form.\<close>

definition form_abc :: ui where
  "form_abc = \<lparr>focusInput = ''abc'', shortInput = ''5'', longInput = ''15'', goalInput = ''8'',
     autoStartToggle = False\<rparr>"

definition form_blank :: ui where
  "form_blank = \<lparr>focusInput = [], shortInput = ''5'', longInput = ''15'', goalInput = ''8'',
     autoStartToggle = False\<rparr>"

definition form_wide :: ui where
  "form_wide = \<lparr>focusInput = ''500'', shortInput = ''0'', longInput = [], goalInput = ''7.5'',
     autoStartToggle = True\<rparr>"

section \<open>Facts about the operations\<close>

subsection \<open>Numbers\<close>



lemma num_sub_zero [simp]: "num_sub x (Fin 0) = x"
  by (cases x) simp_all

lemma not_le_after_wait:
  "0 \<le> d \<Longrightarrow> \<not> num_le (num_sub t (Fin d)) (Fin 0) \<Longrightarrow> \<not> num_le t (Fin 0)"
  by (cases t) auto

lemma in_range_Fin:
  "in_range v a b \<Longrightarrow> \<exists>m. v = Fin m \<and> a \<le> m \<and> m \<le> b"
  by (cases v) (auto simp: in_range_def)

subsection \<open>Pause, start, reset and change of mode\<close>

lemma pause_fields [simp]:
  "running (pause s) = False"
  "mode (pause s) = mode s"
  "totalSec (pause s) = totalSec s"
  "remainingSec (pause s) = remainingSec s"
  "lastPerf (pause s) = lastPerf s"
  "phaseStartISO (pause s) = phaseStartISO s"
  "settings (pause s) = settings s"
  "history (pause s) = history s"
  "stored_settings (pause s) = stored_settings s"
  "stored_history (pause s) = stored_history s"
  by (simp_all add: pause_def Let_def)

lemma pause_interval [simp]: "\<not> truthy_id (interval (pause s))"
  by (cases "interval s") (auto simp: pause_def Let_def)

lemma pause_pause: "pause (pause s) = pause s"
  by (cases "interval s") (simp_all add: pause_def Let_def)

lemma start_running [simp]: "running (start e s)"
  by (simp add: start_def Let_def)

lemma start_when_running: "running s \<Longrightarrow> start e s = s"
  by (simp add: start_def)

lemma start_timers: "length (timers (start e s)) \<le> Suc (length (timers s))"
  by (simp add: start_def Let_def)

lemma start_history [simp]: "history (start e s) = history s"
  by (simp add: start_def Let_def)

lemma resetTimer_fields [simp]:
  "running (resetTimer k s) = False"
  "mode (resetTimer k s) = (if k then mode s else Focus)"
  "totalSec (resetTimer k s) = num_mul (modeToMinutes s (if k then mode s else Focus)) (Fin 60)"
  "remainingSec (resetTimer k s) = num_mul (modeToMinutes s (if k then mode s else Focus)) (Fin 60)"
  "lastPerf (resetTimer k s) = None"
  "phaseStartISO (resetTimer k s) = None"
  "settings (resetTimer k s) = settings s"
  "history (resetTimer k s) = history s"
  "stored_settings (resetTimer k s) = stored_settings s"
  "stored_history (resetTimer k s) = stored_history s"
  by (simp_all add: resetTimer_def Let_def modeToMinutes_def)

lemma resetTimer_interval [simp]: "\<not> truthy_id (interval (resetTimer k s))"
  by (simp add: resetTimer_def Let_def)

lemma setMode_running: "running s \<Longrightarrow> setMode m s = s\<lparr>mode := m\<rparr>"
  by (simp add: setMode_def Let_def)


lemma setMode_history [simp]: "history (setMode m s) = history s"
  by (simp add: setMode_def Let_def)


subsection \<open>Tick\<close>

lemma tick_paused: "\<not> running s \<Longrightarrow> tick e s = Inr s"
  by (simp add: tick_def)

lemma tick_counting:
  "running s \<Longrightarrow> \<not> completes e s \<Longrightarrow>
   tick e s = Inr (s\<lparr>lastPerf := Some (perf_now e),
                     remainingSec := num_sub (remainingSec s) (Fin (elapsed e s))\<rparr>)"
  by (cases "lastPerf s") (simp_all add: tick_def completes_def elapsed_def Let_def)

lemma started_iso_upd [simp]:
  "started_iso e (s\<lparr>lastPerf := a\<rparr>) = started_iso e s"
  "started_iso e (s\<lparr>remainingSec := b\<rparr>) = started_iso e s"
  by (simp_all add: started_iso_def split: option.split)

lemma started_iso_mode [simp]: "started_iso e (s\<lparr>mode := m\<rparr>) = started_iso e s"
  by (simp add: started_iso_def split: option.split)

lemma started_iso_Some: "phaseStartISO s = Some q \<Longrightarrow> started_iso e s = Inr q"
  by (simp add: started_iso_def)

lemma started_iso_fallback:
  "phaseStartISO s = None \<Longrightarrow> totalSec s = Fin t \<Longrightarrow>
   \<bar>real_of_int (date_now e) - t * 1000\<bar> \<le> 8640000000000000 \<Longrightarrow>
   started_iso e s = Inr (ISO (if 0 \<le> real_of_int (date_now e) - t * 1000
      then \<lfloor>real_of_int (date_now e) - t * 1000\<rfloor> else \<lceil>real_of_int (date_now e) - t * 1000\<rceil>))"
  by (simp add: started_iso_def)

lemma completes_mode [simp]: "completes e (s\<lparr>mode := m\<rparr>) = completes e s"
  by (simp add: completes_def elapsed_def)

lemma tick_throws:
  "running s \<Longrightarrow> completes e s \<Longrightarrow> started_iso e s = Inl err \<Longrightarrow>
   tick e s = Inl (err, s\<lparr>lastPerf := Some (perf_now e),
                     remainingSec := num_sub (remainingSec s) (Fin (elapsed e s))\<rparr>)"
  by (cases "lastPerf s") (simp_all add: tick_def completes_def elapsed_def Let_def)

lemma tick_completes_eq:
  assumes "running s" "completes e s" "started_iso e s = Inr p"
  shows "tick e s = Inr
    (let h = \<lparr>entry_id = new_id e, day = today e, entry_mode = mode s,
                 duration = totalSec s, startedAt = p, endedAt = ISO (date_ended e)\<rparr> # history s;
         m = (if mode s = Focus then Short else Focus);
         s' = s\<lparr>lastPerf := Some (perf_now e),
                 remainingSec := num_sub (remainingSec s) (Fin (elapsed e s)),
                 history := take 200 h,
                 stored_history := Some (take 200 h),
                 mode := m,
                 totalSec := num_mul (modeToMinutes s m) (Fin 60),
                 remainingSec := num_mul (modeToMinutes s m) (Fin 60),
                 phaseStartISO := Some (ISO (date_started e)),
                 lastPerf := None\<rparr>
     in if autoStart (settings s) then s' else pause s')"
proof -
  have take: "(if 200 < length h then take 200 h else h) = take 200 h" for h :: "entry list"
    by simp
  have sm: "(if mode s = Focus then setMode Short x else setMode Focus x)
      = x\<lparr>mode := (if mode s = Focus then Short else Focus)\<rparr>" if "running x" for x
    using that by (simp add: setMode_running)
  show ?thesis
    using assms
    by (cases "lastPerf s")
       (simp_all add: tick_def completes_def elapsed_def Let_def take sm
          saveHistory_def modeToMinutes_def del: take_Cons_numeral)
qed

lemma tick_completes:
  assumes "running s" "completes e s" "started_iso e s = Inr p"
  shows "\<exists>s'. tick e s = Inr s' \<and>
    mode s' = (if mode s = Focus then Short else Focus) \<and>
    running s' = autoStart (settings s) \<and>
    totalSec s' = num_mul (modeToMinutes s (mode s')) (Fin 60) \<and>
    remainingSec s' = totalSec s' \<and>
    lastPerf s' = None \<and>
    phaseStartISO s' = Some (ISO (date_started e)) \<and>
    settings s' = settings s \<and>
    history s' = take 200 (\<lparr>entry_id = new_id e, day = today e, entry_mode = mode s,
                             duration = totalSec s, startedAt = p,
                             endedAt = ISO (date_ended e)\<rparr> # history s) \<and>
    stored_history s' = Some (history s') \<and>
    stored_settings s' = stored_settings s \<and>
    (autoStart (settings s) \<longrightarrow> interval s' = interval s \<and> timers s' = timers s)"
proof -
  define h where "h = \<lparr>entry_id = new_id e, day = today e, entry_mode = mode s,
     duration = totalSec s, startedAt = p, endedAt = ISO (date_ended e)\<rparr> # history s"
  define m where "m = (if mode s = Focus then Short else Focus)"
  define x where "x = s\<lparr>lastPerf := Some (perf_now e),
                 remainingSec := num_sub (remainingSec s) (Fin (elapsed e s)),
                 history := take 200 h,
                 stored_history := Some (take 200 h),
                 mode := m,
                 totalSec := num_mul (modeToMinutes s m) (Fin 60),
                 remainingSec := num_mul (modeToMinutes s m) (Fin 60),
                 phaseStartISO := Some (ISO (date_started e)),
                 lastPerf := None\<rparr>"
  define s' where "s' = (if autoStart (settings s) then x else pause x)"
  have t: "tick e s = Inr s'"
    using tick_completes_eq [OF assms] by (simp add: s'_def x_def m_def h_def Let_def)
  have f1: "mode s' = m" "running s' = autoStart (settings s)"
    using assms(1) by (simp_all add: s'_def x_def)
  have f2: "totalSec s' = num_mul (modeToMinutes s m) (Fin 60)"
    "remainingSec s' = num_mul (modeToMinutes s m) (Fin 60)"
    by (simp_all add: s'_def x_def)
  have f3: "lastPerf s' = None" "phaseStartISO s' = Some (ISO (date_started e))"
    "settings s' = settings s"
    by (simp_all add: s'_def x_def)
  have f4: "history s' = take 200 h" "stored_history s' = Some (take 200 h)"
    "stored_settings s' = stored_settings s"
    by (simp_all add: s'_def x_def)
  have f5: "autoStart (settings s) \<Longrightarrow> interval s' = interval s \<and> timers s' = timers s"
    by (simp add: s'_def x_def)
  show ?thesis
    using t f1 f2 f3 f4 f5 unfolding m_def h_def by (intro exI [of _ s']) simp
qed

lemma take_200_Cons: "take 200 (x # xs) = x # take 199 xs"
  by (simp add: take_Cons')

lemma countdown_after_completion:
  assumes "running s" "lastPerf s = None" "remainingSec s = totalSec s"
    "perf_now e1 \<le> perf_now e2"
    "\<not> num_le (num_sub (totalSec s) (Fin ((perf_now e2 - perf_now e1) / 1000))) (Fin 0)"
  shows "\<exists>s''. tick e2 (step (Tick e1) s) = Inr s'' \<and> running s'' \<and>
     remainingSec s'' = num_sub (totalSec s) (Fin ((perf_now e2 - perf_now e1) / 1000))"
proof -
  have d: "0 \<le> (perf_now e2 - perf_now e1) / 1000" using assms(4) by simp
  have n1: "\<not> completes e1 s"
    using not_le_after_wait [OF d assms(5)] assms(2,3) by (simp add: completes_def elapsed_def)
  define s1 where "s1 = s\<lparr>lastPerf := Some (perf_now e1),
     remainingSec := num_sub (remainingSec s) (Fin (elapsed e1 s))\<rparr>"
  have t1: "step (Tick e1) s = s1"
    using tick_counting [OF assms(1) n1] by (simp add: s1_def)
  have f: "running s1" "lastPerf s1 = Some (perf_now e1)" "remainingSec s1 = totalSec s"
    using assms(1,2,3) by (simp_all add: s1_def elapsed_def)
  have n2: "\<not> completes e2 s1"
    using assms(5) f by (simp add: completes_def elapsed_def)
  from tick_counting [OF f(1) n2] f show ?thesis
    unfolding t1 by (simp add: elapsed_def)
qed

subsection \<open>Settings form\<close>

lemma clamp_Fin: "a \<le> b \<Longrightarrow> clamp (Fin x) (Fin a) (Fin b) = Fin (max a (min b x))"
  by (auto simp: clamp_def max_def min_def)

lemma clamp_in_range:
  "v \<noteq> NaN \<Longrightarrow> a \<le> b \<Longrightarrow> in_range (clamp v (Fin a) (Fin b)) a b"
  by (cases v) (auto simp: clamp_def in_range_def)

lemma clamp_field:
  assumes "a \<le> b"
  shows "v = [] \<Longrightarrow> a \<le> d \<Longrightarrow> d \<le> b \<Longrightarrow> clamp (Number_or v d) (Fin a) (Fin b) = Fin d"
    and "v \<noteq> [] \<Longrightarrow> StringToNumber v = Fin x \<Longrightarrow>
         clamp (Number_or v d) (Fin a) (Fin b) = Fin (max a (min b x))"
    and "v \<noteq> [] \<Longrightarrow> StringToNumber v = NaN \<Longrightarrow> clamp (Number_or v d) (Fin a) (Fin b) = NaN"
  using assms by (auto simp: Number_or_def clamp_def max_def min_def)

lemma Number_or_numeric: "numeric v \<Longrightarrow> Number_or v d \<noteq> NaN"
  by (auto simp: numeric_def Number_or_def)

lemma applySettings_settings:
  "settings (applySettingsFromUI u s) = (settings s)
     \<lparr>focusMin := clamp (Number_or (focusInput u) 25) (Fin 1) (Fin 120),
      shortMin := clamp (Number_or (shortInput u) 5) (Fin 1) (Fin 60),
      longMin := clamp (Number_or (longInput u) 15) (Fin 1) (Fin 90),
      goalSessions := clamp (Number_or (goalInput u) 8) (Fin 1) (Fin 30),
      autoStart := autoStartToggle u\<rparr>"
  by (simp add: applySettingsFromUI_def saveSettings_def Let_def)

lemma applySettings_stored:
  "stored_settings (applySettingsFromUI u s) =
     Some (Json (json_of_settings (settings (applySettingsFromUI u s))))"
  by (simp add: applySettingsFromUI_def saveSettings_def Let_def)

lemma applySettings_valid:
  assumes "numeric_ui u"
  shows "valid_settings (settings (applySettingsFromUI u s))"
  using assms
  by (simp add: applySettings_settings valid_settings_def numeric_ui_def
      clamp_in_range Number_or_numeric)



lemma applySettings_history [simp]: "history (applySettingsFromUI u s) = history s"
  by (simp add: applySettingsFromUI_def saveSettings_def Let_def)

lemma in_range_json:
  "in_range v a b \<Longrightarrow> \<exists>x. v = Fin x \<and> json_of_number v = JNum x \<and> a \<le> x \<and> x \<le> b"
  using in_range_Fin [of v a b] by auto

lemma defaults_fields [simp]:
  "theme defaults = ''dark''" "focusMin defaults = Fin 25" "shortMin defaults = Fin 5"
  "longMin defaults = Fin 15" "goalSessions defaults = Fin 8" "autoStart defaults = False"
  by (simp_all add: defaults_def)


subsection \<open>Invariant\<close>














subsection \<open>Length of the log\<close>

lemma tick_history_length:
  "length (history (step (Tick e) s)) \<le> max 200 (length (history s))"
proof (cases "running s")
  case False
  then show ?thesis by (simp add: tick_paused)
next
  case True
  show ?thesis
  proof (cases "completes e s")
    case False
    with True show ?thesis by (simp add: tick_counting)
  next
    case c: True
    show ?thesis
    proof (cases "started_iso e s")
      case (Inl err)
      with True c show ?thesis by (simp add: tick_throws)
    next
      case (Inr p)
      from tick_completes [OF True c Inr] obtain s' where
        "tick e s = Inr s'" "length (history s') \<le> 200"
        by auto
      then show ?thesis by simp
    qed
  qed
qed

lemma step_history_length:
  "length (history (step x s)) \<le> max 200 (length (history s))"
proof (cases x)
  case (Tick e)
  then show ?thesis using tick_history_length [of e s] by simp
qed simp_all

lemma run_history_length:
  "length (history (run xs s)) \<le> max 200 (length (history s))"
proof (induction xs arbitrary: s)
  case Nil
  show ?case by simp
next
  case (Cons x xs)
  have "length (history (run xs (step x s))) \<le> max 200 (length (history (step x s)))"
    by (rule Cons.IH)
  also have "\<dots> \<le> max 200 (length (history s))"
    using step_history_length [of x s] by simp
  finally show ?case by simp
qed

subsection \<open>Loading the settings\<close>

lemma defaults_obj_fields:
  "defaults_obj ''theme'' = Some (JStr ''dark'')"
  "defaults_obj ''focusMin'' = Some (JNum 25)"
  "defaults_obj ''shortMin'' = Some (JNum 5)"
  "defaults_obj ''longMin'' = Some (JNum 15)"
  "defaults_obj ''goalSessions'' = Some (JNum 8)"
  "defaults_obj ''autoStart'' = Some (JBool False)"
  by (simp_all add: defaults_obj_def json_of_settings_def)

lemma loadSettings_parsed: "loadSettings (Inr (Some (Json v))) = defaults_obj ++ props v"
  by (simp add: loadSettings_def)

lemma loadSettings_fallback:
  "loadSettings (Inl err) = defaults_obj" "loadSettings (Inr None) = defaults_obj"
  "loadSettings (Inr (Some (Text t))) = defaults_obj"
  by (simp_all add: loadSettings_def)

lemma loadSettings_cases:
  "loadSettings got = defaults_obj \<or> (\<exists>v. loadSettings got = defaults_obj ++ props v)"
proof (cases got)
  case (Inl err)
  then show ?thesis by (simp add: loadSettings_fallback)
next
  case (Inr raw)
  show ?thesis
  proof (cases raw)
    case None
    with Inr show ?thesis by (simp add: loadSettings_fallback)
  next
    case (Some it)
    with Inr show ?thesis
      by (cases it) (auto simp: loadSettings_fallback loadSettings_parsed)
  qed
qed

lemma loadSettings_has_default_keys:
  "defaults_obj k \<noteq> None \<Longrightarrow> loadSettings got k \<noteq> None"
  using loadSettings_cases [of got] by (auto simp: map_add_def split: option.splits)

subsection \<open>Sample inputs\<close>

lemma host_at_fields [simp]:
  "perf_now (host_at t w) = t" "date_ended (host_at t w) = w" "date_now (host_at t w) = w"
  "date_started (host_at t w) = w" "new_id (host_at t w) = ''id''"
  "today (host_at t w) = ''2024-05-01''"
  by (simp_all add: host_at_def)

lemma init_defaults:
  "init defaults [] = \<lparr>mode = Focus, running = False, totalSec = Fin 1500, remainingSec = Fin 1500,
      lastPerf = None, interval = None, phaseStartISO = None, settings = defaults, history = [],
      timers = [], stored_settings = None, stored_history = None\<rparr>"
  by (simp add: init_def setMode_def resetTimer_def pause_def state0_def Let_def
      modeToMinutes_def defaults_def)

lemma counting_focus_eq:
  "counting_focus = \<lparr>mode = Focus, running = True, totalSec = Fin 1500, remainingSec = Fin 1500,
      lastPerf = Some 0, interval = Some 1, phaseStartISO = Some (ISO 1000), settings = defaults,
      history = [], timers = [1], stored_settings = None, stored_history = None\<rparr>"
  by (simp add: counting_focus_def init_defaults start_def tick_def Let_def fresh_id_def)

lemma counting_focus_simps [simp]:
  "mode counting_focus = Focus" "running counting_focus" "totalSec counting_focus = Fin 1500"
  "remainingSec counting_focus = Fin 1500" "lastPerf counting_focus = Some 0"
  "interval counting_focus = Some 1" "phaseStartISO counting_focus = Some (ISO 1000)"
  "settings counting_focus = defaults" "history counting_focus = []"
  "timers counting_focus = [1]"
  by (simp_all add: counting_focus_eq)

lemma counting_completes [simp]: "completes (host_at 1500000 w) counting_focus"
  by (simp add: completes_def elapsed_def)

lemma counting_started [simp]: "started_iso e counting_focus = Inr (ISO 1000)"
  by (simp add: started_iso_def)

lemma filled_log_simps [simp]:
  "running filled_log" "mode filled_log = Focus" "totalSec filled_log = Fin 1500"
  "completes (host_at 1500000 w) filled_log" "started_iso e filled_log = Inr (ISO 1000)"
  "history filled_log = replicate 200
     \<lparr>entry_id = ''old'', day = ''2024-04-30'', entry_mode = Short, duration = Fin 300,
      startedAt = ISO 0, endedAt = ISO 300000\<rparr>"
  by (simp_all add: filled_log_def completes_def elapsed_def started_iso_def)

lemma clamp_defaults [simp]:
  "clamp (Fin 25) (Fin 1) (Fin 120) = Fin 25" "clamp (Fin 5) (Fin 1) (Fin 60) = Fin 5"
  "clamp (Fin 15) (Fin 1) (Fin 90) = Fin 15" "clamp (Fin 8) (Fin 1) (Fin 30) = Fin 8"
  by (simp_all add: clamp_def)

lemma apply_auto:
  "settings (applySettingsFromUI \<lparr>focusInput = [], shortInput = [], longInput = [], goalInput = [],
        autoStartToggle = True\<rparr> s) = (settings s)\<lparr>focusMin := Fin 25, shortMin := Fin 5,
          longMin := Fin 15, goalSessions := Fin 8, autoStart := True\<rparr>"
  by (simp add: applySettings_settings Number_or_def)

lemma defaults_auto: "defaults\<lparr>focusMin := Fin 25, shortMin := Fin 5,
          longMin := Fin 15, goalSessions := Fin 8, autoStart := True\<rparr> = defaults\<lparr>autoStart := True\<rparr>"
  by (simp add: defaults_def)

lemma auto_applied:
  "applySettingsFromUI \<lparr>focusInput = [], shortInput = [], longInput = [], goalInput = [],
        autoStartToggle = True\<rparr> (init defaults []) =
    \<lparr>mode = Focus, running = False, totalSec = Fin 1500, remainingSec = Fin 1500,
      lastPerf = None, interval = None, phaseStartISO = None,
      settings = defaults\<lparr>autoStart := True\<rparr>,
      history = [], timers = [],
      stored_settings = Some (Json (json_of_settings (defaults\<lparr>autoStart := True\<rparr>))),
      stored_history = None\<rparr>"
  by (simp add: init_defaults applySettingsFromUI_def saveSettings_def Number_or_def
      resetTimer_def pause_def modeToMinutes_def Let_def defaults_auto)

lemma counting_auto_eq:
  "counting_auto = \<lparr>mode = Focus, running = True, totalSec = Fin 1500, remainingSec = Fin 1500,
      lastPerf = Some 0, interval = Some 1, phaseStartISO = Some (ISO 1000),
      settings = defaults\<lparr>autoStart := True\<rparr>,
      history = [], timers = [1],
      stored_settings = Some (Json (json_of_settings (defaults\<lparr>autoStart := True\<rparr>))),
      stored_history = None\<rparr>"
  by (simp add: counting_auto_def auto_applied start_def tick_def Let_def fresh_id_def)

lemma counting_auto_simps [simp]:
  "mode counting_auto = Focus" "running counting_auto" "totalSec counting_auto = Fin 1500"
  "remainingSec counting_auto = Fin 1500" "lastPerf counting_auto = Some 0"
  "interval counting_auto = Some 1" "phaseStartISO counting_auto = Some (ISO 1000)"
  "settings counting_auto = defaults\<lparr>autoStart := True\<rparr>" "history counting_auto = []"
  "timers counting_auto = [1]"
  by (simp_all add: counting_auto_eq)

lemmas number_defs = StringToNumber_def trim_def is_ws_def unsigned_decimal_def is_digit_def
  digit_val_def digits_value_def scale10_def radix_of_def

lemma sample_numbers:
  "StringToNumber ''abc'' = NaN" "StringToNumber ''5'' = Fin 5" "StringToNumber ''15'' = Fin 15"
  "StringToNumber ''8'' = Fin 8" "StringToNumber ''500'' = Fin 500"
  "StringToNumber ''0'' = Fin 0" "StringToNumber ''7.5'' = Fin 7.5"
  "StringToNumber [] = Fin 0"
  by (simp_all add: number_defs)

lemma form_fields [simp]:
  "focusInput form_abc = ''abc''" "shortInput form_abc = ''5''" "longInput form_abc = ''15''"
  "goalInput form_abc = ''8''" "autoStartToggle form_abc = False"
  "focusInput form_blank = []" "shortInput form_blank = ''5''" "longInput form_blank = ''15''"
  "goalInput form_blank = ''8''" "autoStartToggle form_blank = False"
  "focusInput form_wide = ''500''" "shortInput form_wide = ''0''" "longInput form_wide = []"
  "goalInput form_wide = ''7.5''" "autoStartToggle form_wide = True"
  by (simp_all add: form_abc_def form_blank_def form_wide_def)

text \<open>
  The bounds of the countdown need settings that are numbers: after the form was applied
  with a value that \<open>Number\<close> does not read, the countdown is \<open>NaN\<close> and compares
  with nothing.
\<close>

lemma unread_input_spoils_countdown:
  "remainingSec (applySettingsFromUI form_abc (init defaults [])) = NaN \<and>
   \<not> num_le (Fin 0) (remainingSec (applySettingsFromUI form_abc (init defaults [])))"
proof -
  have "remainingSec (applySettingsFromUI form_abc (init defaults [])) =
      num_mul (clamp (Number_or ''abc'' 25) (Fin 1) (Fin 120)) (Fin 60)"
    by (simp add: applySettingsFromUI_def saveSettings_def modeToMinutes_def Let_def
        init_defaults)
  then show ?thesis by (simp add: clamp_field(3) sample_numbers)
qed

section \<open>Claims\<close>

subsection \<open>Reset\<close>



subsection \<open>Start and pause\<close>

text \<open>
  C9. From any state, \<open>pause()\<close> twice is \<open>pause()\<close> once and \<open>start()\<close> twice is
  \<open>start()\<close> once; \<open>start()\<close> on a running timer changes nothing, so the second call
  adds no schedule, and one call adds at most one.
\<close>

theorem start_pause_idempotent:
  "pause (pause s) = pause s \<and>
   start e2 (start e1 s) = start e1 s \<and>
   start e (s\<lparr>running := True\<rparr>) = s\<lparr>running := True\<rparr> \<and>
   timers (start e2 (start e1 s)) = timers (start e1 s) \<and>
   length (timers (start e1 s)) \<le> Suc (length (timers s))"
  by (simp add: pause_pause start_when_running start_timers)

subsection \<open>Phase completion\<close>

text \<open>
  The statements about a completion are about a tick \<open>e\<close> of a running state \<open>s\<close> at
  which the phase is over (\<open>completes e s\<close>) and the start of the phase to log is
  defined (\<open>started_iso e s = Inr p\<close>): \<open>phaseStartISO\<close> is set, as in every state the
  operations reach while running, or the date computed in its place is one that
  \<open>Date\<close> represents.
\<close>

text \<open>
  C2. When a running phase is over at a tick, the mode after the tick is fixed by the
  mode before it: \<open>focus\<close> goes to \<open>short\<close>, \<open>short\<close> to \<open>focus\<close> and
  \<open>long\<close> to \<open>focus\<close>.
\<close>

theorem mode_advances_by_fixed_rule:
  assumes "running s" "completes e s" "started_iso e s = Inr p"
  shows "\<exists>s'. tick e s = Inr s' \<and>
    mode s' = (case mode s of Focus \<Rightarrow> Short | Short \<Rightarrow> Focus | Long \<Rightarrow> Focus)"
proof -
  from tick_completes [OF assms] obtain s' where
    "tick e s = Inr s'" "mode s' = (if mode s = Focus then Short else Focus)"
    by blast
  then show ?thesis by (cases "mode s") simp_all
qed

theorem mode_advances_by_fixed_rule_witness:
  "running counting_focus \<and> completes (host_at 1500000 2000) counting_focus \<and>
   started_iso (host_at 1500000 2000) counting_focus = Inr (ISO 1000) \<and>
   mode counting_focus = Focus \<and>
   (\<exists>s'. tick (host_at 1500000 2000) counting_focus = Inr s' \<and> mode s' = Short)"
  using mode_advances_by_fixed_rule [of counting_focus "host_at 1500000 2000" "ISO 1000"]
  by simp

text \<open>
  C3. The entry logged at a completion carries the planned duration \<open>totalSec\<close>, the
  current mode, the end time read at the completion, and as start time the recorded
  \<open>phaseStartISO\<close>; when none is recorded, the start time is the wall clock minus
  \<open>totalSec\<close> seconds (for a date in the range of \<open>Date\<close>).
\<close>

theorem completion_entry_fields:
  assumes "running s" "completes e s"
  shows "(\<forall>q. phaseStartISO s = Some q \<longrightarrow>
       (\<exists>s'. tick e s = Inr s' \<and>
          history s' = take 200 (\<lparr>entry_id = new_id e, day = today e, entry_mode = mode s,
             duration = totalSec s, startedAt = q, endedAt = ISO (date_ended e)\<rparr> # history s))) \<and>
    (\<forall>t. phaseStartISO s = None \<and> totalSec s = Fin t \<and>
         \<bar>real_of_int (date_now e) - t * 1000\<bar> \<le> 8640000000000000 \<longrightarrow>
       (\<exists>s'. tick e s = Inr s' \<and>
          history s' = take 200 (\<lparr>entry_id = new_id e, day = today e, entry_mode = mode s,
             duration = totalSec s,
             startedAt = ISO (if 0 \<le> real_of_int (date_now e) - t * 1000
                then \<lfloor>real_of_int (date_now e) - t * 1000\<rfloor>
                else \<lceil>real_of_int (date_now e) - t * 1000\<rceil>),
             endedAt = ISO (date_ended e)\<rparr> # history s)))"
proof (intro conjI allI impI)
  fix q assume "phaseStartISO s = Some q"
  then have "started_iso e s = Inr q" by (rule started_iso_Some)
  from tick_completes [OF assms this] show "\<exists>s'. tick e s = Inr s' \<and>
          history s' = take 200 (\<lparr>entry_id = new_id e, day = today e, entry_mode = mode s,
             duration = totalSec s, startedAt = q, endedAt = ISO (date_ended e)\<rparr> # history s)"
    by blast
next
  fix t
  let ?v = "real_of_int (date_now e) - t * 1000"
  assume a: "phaseStartISO s = None \<and> totalSec s = Fin t \<and> \<bar>?v\<bar> \<le> 8640000000000000"
  then have "started_iso e s = Inr (ISO (if 0 \<le> ?v then \<lfloor>?v\<rfloor> else \<lceil>?v\<rceil>))"
    using started_iso_fallback [of s t e] by blast
  from tick_completes [OF assms this] show "\<exists>s'. tick e s = Inr s' \<and>
          history s' = take 200 (\<lparr>entry_id = new_id e, day = today e, entry_mode = mode s,
             duration = totalSec s,
             startedAt = ISO (if 0 \<le> ?v then \<lfloor>?v\<rfloor> else \<lceil>?v\<rceil>),
             endedAt = ISO (date_ended e)\<rparr> # history s)"
    by blast
qed

theorem completion_entry_fields_witness:
  "running counting_focus \<and> completes (host_at 1500000 1501000) counting_focus \<and>
   phaseStartISO counting_focus = Some (ISO 1000) \<and>
   (\<exists>s'. tick (host_at 1500000 1501000) counting_focus = Inr s' \<and>
      history s' = [\<lparr>entry_id = ''id'', day = ''2024-05-01'', entry_mode = Focus,
         duration = Fin 1500, startedAt = ISO 1000, endedAt = ISO 1501000\<rparr>]) \<and>
   running (counting_focus\<lparr>phaseStartISO := None\<rparr>) \<and>
   completes (host_at 1500000 1501000) (counting_focus\<lparr>phaseStartISO := None\<rparr>) \<and>
   phaseStartISO (counting_focus\<lparr>phaseStartISO := None\<rparr>) = None \<and>
   totalSec (counting_focus\<lparr>phaseStartISO := None\<rparr>) = Fin 1500 \<and>
   (\<exists>s'. tick (host_at 1500000 1501000) (counting_focus\<lparr>phaseStartISO := None\<rparr>) = Inr s' \<and>
      history s' = [\<lparr>entry_id = ''id'', day = ''2024-05-01'', entry_mode = Focus,
         duration = Fin 1500, startedAt = ISO 1000, endedAt = ISO 1501000\<rparr>])"
proof -
  let ?e = "host_at 1500000 1501000"
  let ?u = "counting_focus\<lparr>phaseStartISO := None\<rparr>"
  have c: "completes ?e ?u" by (simp add: completes_def elapsed_def)
  from completion_entry_fields [of counting_focus ?e]
  have 1: "\<exists>s'. tick ?e counting_focus = Inr s' \<and>
      history s' = [\<lparr>entry_id = ''id'', day = ''2024-05-01'', entry_mode = Focus,
         duration = Fin 1500, startedAt = ISO 1000, endedAt = ISO 1501000\<rparr>]"
    by simp
  from completion_entry_fields [of ?u ?e] c
  have 2: "\<exists>s'. tick ?e ?u = Inr s' \<and>
      history s' = [\<lparr>entry_id = ''id'', day = ''2024-05-01'', entry_mode = Focus,
         duration = Fin 1500, startedAt = ISO 1000, endedAt = ISO 1501000\<rparr>]"
    by simp
  from 1 2 c show ?thesis by simp
qed

text \<open>
  C4. A completion puts the new entry in front of the log and keeps the first 200
  entries, so the entries dropped are the oldest and the log has at most 200 entries
  after it; no sequence of operations makes the log longer than 200 entries, or than it
  was when longer.
\<close>

theorem history_newest_first_capped:
  "(running s \<and> completes e s \<and> started_iso e s = Inr p \<longrightarrow>
      (\<exists>s'. tick e s = Inr s' \<and>
         history s' = \<lparr>entry_id = new_id e, day = today e, entry_mode = mode s,
             duration = totalSec s, startedAt = p, endedAt = ISO (date_ended e)\<rparr>
           # take 199 (history s) \<and>
         length (history s') \<le> 200)) \<and>
   length (history (run ops s)) \<le> max 200 (length (history s))"
proof (intro conjI impI)
  assume a: "running s \<and> completes e s \<and> started_iso e s = Inr p"
  then have "running s" "completes e s" "started_iso e s = Inr p" by simp_all
  from tick_completes [OF this] obtain s' where
    s': "tick e s = Inr s'"
     "history s' = take 200 (\<lparr>entry_id = new_id e, day = today e, entry_mode = mode s,
             duration = totalSec s, startedAt = p, endedAt = ISO (date_ended e)\<rparr> # history s)"
    by blast
  have "length (history s') \<le> 200" using s'(2) by simp
  with s' show "\<exists>s'. tick e s = Inr s' \<and>
         history s' = \<lparr>entry_id = new_id e, day = today e, entry_mode = mode s,
             duration = totalSec s, startedAt = p, endedAt = ISO (date_ended e)\<rparr>
           # take 199 (history s) \<and>
         length (history s') \<le> 200"
    by (simp add: take_200_Cons)
next
  show "length (history (run ops s)) \<le> max 200 (length (history s))"
    by (rule run_history_length)
qed

theorem history_newest_first_capped_witness:
  "running filled_log \<and> completes (host_at 1500000 1501000) filled_log \<and>
   started_iso (host_at 1500000 1501000) filled_log = Inr (ISO 1000) \<and>
   length (history filled_log) = 200 \<and>
   (\<exists>s'. tick (host_at 1500000 1501000) filled_log = Inr s' \<and>
      history s' = \<lparr>entry_id = ''id'', day = ''2024-05-01'', entry_mode = Focus,
             duration = Fin 1500, startedAt = ISO 1000, endedAt = ISO 1501000\<rparr>
         # replicate 199 \<lparr>entry_id = ''old'', day = ''2024-04-30'', entry_mode = Short,
             duration = Fin 300, startedAt = ISO 0, endedAt = ISO 300000\<rparr> \<and>
      length (history s') = 200)"
  using history_newest_first_capped [of filled_log "host_at 1500000 1501000" "ISO 1000" "[]"]
  by auto

text \<open>
  C5. A completion logs the entry and then leaves the timer paused when \<open>autoStart\<close>
  is false, and running when it is true. In the second case the schedule stays, and the
  ticks that follow count the new phase down from its full duration by the time that
  passes between them, with no call of \<open>start()\<close>.
\<close>

theorem autoStart_decides_running:
  assumes "running s" "completes e s" "started_iso e s = Inr p"
  shows "\<exists>s'. tick e s = Inr s' \<and>
    history s' = take 200 (\<lparr>entry_id = new_id e, day = today e, entry_mode = mode s,
       duration = totalSec s, startedAt = p, endedAt = ISO (date_ended e)\<rparr> # history s) \<and>
    running s' = autoStart (settings s) \<and>
    (autoStart (settings s) \<longrightarrow>
       interval s' = interval s \<and> timers s' = timers s \<and>
       (perf_now e1 \<le> perf_now e2 \<and>
        \<not> num_le (num_sub (totalSec s') (Fin ((perf_now e2 - perf_now e1) / 1000))) (Fin 0) \<longrightarrow>
        (\<exists>s''. tick e2 (step (Tick e1) s') = Inr s'' \<and> running s'' \<and>
           remainingSec s'' = num_sub (totalSec s') (Fin ((perf_now e2 - perf_now e1) / 1000)))))"
proof -
  from tick_completes [OF assms] obtain s' where s': "tick e s = Inr s'"
    "history s' = take 200 (\<lparr>entry_id = new_id e, day = today e, entry_mode = mode s,
       duration = totalSec s, startedAt = p, endedAt = ISO (date_ended e)\<rparr> # history s)"
    "running s' = autoStart (settings s)" "remainingSec s' = totalSec s'" "lastPerf s' = None"
    "autoStart (settings s) \<longrightarrow> interval s' = interval s \<and> timers s' = timers s"
    by blast
  have "\<exists>s''. tick e2 (step (Tick e1) s') = Inr s'' \<and> running s'' \<and>
           remainingSec s'' = num_sub (totalSec s') (Fin ((perf_now e2 - perf_now e1) / 1000))"
    if "autoStart (settings s)" "perf_now e1 \<le> perf_now e2"
      "\<not> num_le (num_sub (totalSec s') (Fin ((perf_now e2 - perf_now e1) / 1000))) (Fin 0)"
    using countdown_after_completion [of s' e1 e2] that s'(3,4,5) by simp
  with s' show ?thesis by blast
qed


theorem autoStart_decides_running_witness:
  "running counting_focus \<and> completes (host_at 1500000 1501000) counting_focus \<and>
   started_iso (host_at 1500000 1501000) counting_focus = Inr (ISO 1000) \<and>
   \<not> autoStart (settings counting_focus) \<and>
   (\<exists>s'. tick (host_at 1500000 1501000) counting_focus = Inr s' \<and> \<not> running s' \<and>
      length (history s') = 1) \<and>
   running counting_auto \<and> completes (host_at 1500000 1501000) counting_auto \<and>
   started_iso (host_at 1500000 1501000) counting_auto = Inr (ISO 1000) \<and>
   autoStart (settings counting_auto) \<and>
   (\<exists>s'. tick (host_at 1500000 1501000) counting_auto = Inr s' \<and> running s' \<and>
      length (history s') = 1 \<and> interval s' = Some 1 \<and> timers s' = [1] \<and>
      totalSec s' = Fin 300 \<and>
      (\<exists>s''. tick (host_at 1510250 1511250) (step (Tick (host_at 1500250 1501250)) s') = Inr s'' \<and>
         running s'' \<and> remainingSec s'' = Fin 290))"
proof -
  let ?e = "host_at 1500000 1501000"
  let ?e1 = "host_at 1500250 1501250"
  let ?e2 = "host_at 1510250 1511250"
  have cf: "running counting_focus" "completes ?e counting_focus"
    "started_iso ?e counting_focus = Inr (ISO 1000)" "\<not> autoStart (settings counting_focus)"
    by simp_all
  have ca: "running counting_auto" "completes ?e counting_auto"
    "started_iso ?e counting_auto = Inr (ISO 1000)" "autoStart (settings counting_auto)"
    by (simp_all add: completes_def elapsed_def started_iso_def)
  from autoStart_decides_running [OF cf(1,2,3), of ?e1 ?e2] obtain x where x:
    "tick ?e counting_focus = Inr x" "running x = autoStart (settings counting_focus)"
    "history x = take 200 (\<lparr>entry_id = new_id ?e, day = today ?e,
       entry_mode = mode counting_focus, duration = totalSec counting_focus,
       startedAt = ISO 1000, endedAt = ISO (date_ended ?e)\<rparr> # history counting_focus)"
    by blast
  have 1: "\<exists>s'. tick ?e counting_focus = Inr s' \<and> \<not> running s' \<and> length (history s') = 1"
    using x cf(4) by simp
  from autoStart_decides_running [OF ca(1,2,3), of ?e1 ?e2] obtain y where y:
    "tick ?e counting_auto = Inr y" "running y = autoStart (settings counting_auto)"
    "history y = take 200 (\<lparr>entry_id = new_id ?e, day = today ?e,
       entry_mode = mode counting_auto, duration = totalSec counting_auto,
       startedAt = ISO 1000, endedAt = ISO (date_ended ?e)\<rparr> # history counting_auto)"
    "autoStart (settings counting_auto) \<longrightarrow>
       interval y = interval counting_auto \<and> timers y = timers counting_auto \<and>
       (perf_now ?e1 \<le> perf_now ?e2 \<and>
        \<not> num_le (num_sub (totalSec y) (Fin ((perf_now ?e2 - perf_now ?e1) / 1000))) (Fin 0) \<longrightarrow>
        (\<exists>s''. tick ?e2 (step (Tick ?e1) y) = Inr s'' \<and> running s'' \<and>
           remainingSec s'' = num_sub (totalSec y) (Fin ((perf_now ?e2 - perf_now ?e1) / 1000))))"
    by blast
  from tick_completes [OF ca(1,2,3)] y(1) have t: "totalSec y = Fin 300"
    by (auto simp: modeToMinutes_def)
  have r: "running y" "length (history y) = 1" "interval y = Some 1" "timers y = [1]"
    using y(2,3,4) ca(4) by simp_all
  have "\<exists>s''. tick ?e2 (step (Tick ?e1) y) = Inr s'' \<and> running s'' \<and> remainingSec s'' = Fin 290"
    using y(4) ca(4) t by (simp del: step.simps)
  with y(1) r t have 2: "\<exists>s'. tick ?e counting_auto = Inr s' \<and> running s' \<and>
      length (history s') = 1 \<and> interval s' = Some 1 \<and> timers s' = [1] \<and>
      totalSec s' = Fin 300 \<and>
      (\<exists>s''. tick ?e2 (step (Tick ?e1) s') = Inr s'' \<and> running s'' \<and> remainingSec s'' = Fin 290)"
    by blast
  show ?thesis
    using cf ca 1 2 by (simp only: simp_thms)
qed

subsection \<open>Changing the mode while running\<close>

text \<open>
  C10. \<open>setMode(mode)\<close> on a running timer changes the field \<open>mode\<close> and nothing
  else: \<open>totalSec\<close>, \<open>remainingSec\<close>, \<open>running\<close> and \<open>phaseStartISO\<close> stay. A
  completion that follows logs the newly selected mode with the planned duration of the
  phase that was running, and the next mode is the one that follows the newly selected
  mode.
\<close>

theorem setMode_while_running:
  assumes "running s"
  shows "setMode m s = s\<lparr>mode := m\<rparr> \<and>
    mode (setMode m s) = m \<and> totalSec (setMode m s) = totalSec s \<and>
    remainingSec (setMode m s) = remainingSec s \<and> running (setMode m s) \<and>
    phaseStartISO (setMode m s) = phaseStartISO s \<and>
    (completes e s \<and> started_iso e s = Inr p \<longrightarrow>
       (\<exists>s'. tick e (setMode m s) = Inr s' \<and>
          history s' = take 200 (\<lparr>entry_id = new_id e, day = today e, entry_mode = m,
             duration = totalSec s, startedAt = p, endedAt = ISO (date_ended e)\<rparr> # history s) \<and>
          mode s' = (case m of Focus \<Rightarrow> Short | Short \<Rightarrow> Focus | Long \<Rightarrow> Focus)))"
proof -
  have eq: "setMode m s = s\<lparr>mode := m\<rparr>" using assms by (rule setMode_running)
  have "\<exists>s'. tick e (setMode m s) = Inr s' \<and>
          history s' = take 200 (\<lparr>entry_id = new_id e, day = today e, entry_mode = m,
             duration = totalSec s, startedAt = p, endedAt = ISO (date_ended e)\<rparr> # history s) \<and>
          mode s' = (case m of Focus \<Rightarrow> Short | Short \<Rightarrow> Focus | Long \<Rightarrow> Focus)"
    if c: "completes e s" "started_iso e s = Inr p"
  proof -
    have r: "running (s\<lparr>mode := m\<rparr>)" "completes e (s\<lparr>mode := m\<rparr>)"
      "started_iso e (s\<lparr>mode := m\<rparr>) = Inr p"
      using assms c by simp_all
    from tick_completes [OF r] obtain s' where
      "tick e (s\<lparr>mode := m\<rparr>) = Inr s'"
      "mode s' = (if m = Focus then Short else Focus)"
      "history s' = take 200 (\<lparr>entry_id = new_id e, day = today e, entry_mode = m,
             duration = totalSec s, startedAt = p, endedAt = ISO (date_ended e)\<rparr> # history s)"
      by auto
    then show ?thesis unfolding eq by (cases m) simp_all
  qed
  then show ?thesis using assms by (simp add: eq)
qed

theorem setMode_while_running_witness:
  "running counting_focus \<and> completes (host_at 1500000 1501000) counting_focus \<and>
   started_iso (host_at 1500000 1501000) counting_focus = Inr (ISO 1000) \<and>
   mode counting_focus = Focus \<and> totalSec counting_focus = Fin 1500 \<and>
   mode (setMode Long counting_focus) = Long \<and>
   totalSec (setMode Long counting_focus) = Fin 1500 \<and>
   remainingSec (setMode Long counting_focus) = Fin 1500 \<and>
   running (setMode Long counting_focus) \<and>
   phaseStartISO (setMode Long counting_focus) = Some (ISO 1000) \<and>
   (\<exists>s'. tick (host_at 1500000 1501000) (setMode Long counting_focus) = Inr s' \<and>
      history s' = [\<lparr>entry_id = ''id'', day = ''2024-05-01'', entry_mode = Long,
             duration = Fin 1500, startedAt = ISO 1000, endedAt = ISO 1501000\<rparr>] \<and>
      mode s' = Focus)"
proof -
  let ?e = "host_at 1500000 1501000"
  have h: "running counting_focus" "completes ?e counting_focus"
    "started_iso ?e counting_focus = Inr (ISO 1000)"
    by simp_all
  note t = setMode_while_running [OF h(1), of Long ?e "ISO 1000"]
  from t have a: "setMode Long counting_focus = counting_focus\<lparr>mode := Long\<rparr>" by blast
  from t h(2,3) have "\<exists>s'. tick ?e (setMode Long counting_focus) = Inr s' \<and>
      history s' = take 200 (\<lparr>entry_id = new_id ?e, day = today ?e, entry_mode = Long,
         duration = totalSec counting_focus, startedAt = ISO 1000,
         endedAt = ISO (date_ended ?e)\<rparr> # history counting_focus) \<and>
      mode s' = (case Long of Focus \<Rightarrow> Short | Short \<Rightarrow> Focus | Long \<Rightarrow> Focus)"
    by blast
  then have b: "\<exists>s'. tick ?e (setMode Long counting_focus) = Inr s' \<and>
      history s' = [\<lparr>entry_id = ''id'', day = ''2024-05-01'', entry_mode = Long,
             duration = Fin 1500, startedAt = ISO 1000, endedAt = ISO 1501000\<rparr>] \<and>
      mode s' = Focus"
    by simp
  have c: "mode (setMode Long counting_focus) = Long"
    "totalSec (setMode Long counting_focus) = Fin 1500"
    "remainingSec (setMode Long counting_focus) = Fin 1500"
    "running (setMode Long counting_focus)"
    "phaseStartISO (setMode Long counting_focus) = Some (ISO 1000)"
    by (simp_all add: a)
  show ?thesis using h b c by (simp only: counting_focus_simps simp_thms)
qed

subsection \<open>Bounds of the countdown\<close>



subsection \<open>Loading the settings\<close>

text \<open>
  C7. \<open>loadSettings\<close> returns an object with every field of \<open>defaults\<close>, whatever
  \<open>localStorage\<close> holds and also when reading it throws. When the stored text parses,
  each field is the stored one if the parsed value has it and the default otherwise;
  when there is no stored text, or it does not parse, the result is \<open>defaults\<close>.
\<close>

theorem loadSettings_complete:
  "(\<forall>k \<in> {''theme'', ''focusMin'', ''shortMin'', ''longMin'', ''goalSessions'', ''autoStart''}.
      loadSettings got k \<noteq> None) \<and>
   (got = Inr (Some (Json v)) \<longrightarrow>
      loadSettings got k = (case props v k of Some x \<Rightarrow> Some x | None \<Rightarrow> defaults_obj k)) \<and>
   (got = Inl err \<or> got = Inr None \<or> got = Inr (Some (Text t)) \<longrightarrow>
      loadSettings got = defaults_obj) \<and>
   defaults_obj ''theme'' = Some (JStr ''dark'') \<and>
   defaults_obj ''focusMin'' = Some (JNum 25) \<and>
   defaults_obj ''shortMin'' = Some (JNum 5) \<and>
   defaults_obj ''longMin'' = Some (JNum 15) \<and>
   defaults_obj ''goalSessions'' = Some (JNum 8) \<and>
   defaults_obj ''autoStart'' = Some (JBool False)"
proof -
  have 1: "\<forall>k \<in> {''theme'', ''focusMin'', ''shortMin'', ''longMin'', ''goalSessions'', ''autoStart''}.
      loadSettings got k \<noteq> None"
    using loadSettings_has_default_keys [of _ got] defaults_obj_fields by blast
  have 2: "got = Inr (Some (Json v)) \<longrightarrow>
      loadSettings got k = (case props v k of Some x \<Rightarrow> Some x | None \<Rightarrow> defaults_obj k)"
    by (auto simp: loadSettings_parsed map_add_def split: option.splits)
  have 3: "got = Inl err \<or> got = Inr None \<or> got = Inr (Some (Text t)) \<longrightarrow>
      loadSettings got = defaults_obj"
    by (auto simp: loadSettings_fallback)
  from 1 2 3 defaults_obj_fields show ?thesis by blast
qed

theorem loadSettings_complete_witness:
  "loadSettings (Inr (Some (Json (JObj [(''focusMin'', JNum 50)])))) ''focusMin'' = Some (JNum 50) \<and>
   loadSettings (Inr (Some (Json (JObj [(''focusMin'', JNum 50)])))) ''shortMin'' = Some (JNum 5) \<and>
   loadSettings (Inr (Some (Json (JObj [(''focusMin'', JNum 50)])))) ''theme'' \<noteq> None \<and>
   loadSettings (Inr (Some (Text ''{focus''))) = defaults_obj \<and>
   loadSettings (Inr None) = defaults_obj \<and>
   loadSettings (Inl SecurityError) = defaults_obj"
proof -
  let ?g = "Inr (Some (Json (JObj [(''focusMin'', JNum 50)])))"
  note t = loadSettings_complete [of ?g "JObj [(''focusMin'', JNum 50)]"]
  have a: "loadSettings ?g ''focusMin'' = Some (JNum 50)"
    using t [of "''focusMin''"] by simp
  have b: "loadSettings ?g ''shortMin'' = Some (JNum 5)"
    using t [of "''shortMin''"] by simp
  have c: "loadSettings ?g ''theme'' \<noteq> None"
    using t [of "''theme''"] by blast
  have d: "loadSettings (Inr (Some (Text ''{focus''))) = defaults_obj"
    using loadSettings_complete [of "Inr (Some (Text ''{focus''))" _ _ _ "''{focus''"] by blast
  have e: "loadSettings (Inr None) = defaults_obj"
    using loadSettings_complete [of "Inr None"] by blast
  have f: "loadSettings (Inl SecurityError) = defaults_obj"
    using loadSettings_complete [of "Inl SecurityError" _ _ SecurityError] by blast
  from a b c d e f show ?thesis by blast
qed

subsection \<open>Settings form\<close>

text \<open>
  C6, as amended. For every input of the settings form whose four values are each empty
  or read by \<open>Number\<close> as a number, the fields written and persisted are within their
  ranges (focus 1 to 120, short break 1 to 60, long break 1 to 90, goal 1 to 30): a
  number outside its range is replaced by the nearest bound, and an empty value by the
  default (25, 5, 15, 8).
\<close>

theorem settings_input_in_range:
  assumes "numeric_ui u"
  shows "valid_settings (settings (applySettingsFromUI u s)) \<and>
    (\<exists>f sh l g.
       stored_settings (applySettingsFromUI u s) =
         Some (Json (JObj [(''theme'', JStr (theme (settings s))), (''focusMin'', JNum f),
            (''shortMin'', JNum sh), (''longMin'', JNum l), (''goalSessions'', JNum g),
            (''autoStart'', JBool (autoStartToggle u))])) \<and>
       1 \<le> f \<and> f \<le> 120 \<and> 1 \<le> sh \<and> sh \<le> 60 \<and> 1 \<le> l \<and> l \<le> 90 \<and> 1 \<le> g \<and> g \<le> 30) \<and>
    (focusInput u = [] \<longrightarrow> focusMin (settings (applySettingsFromUI u s)) = Fin 25) \<and>
    (shortInput u = [] \<longrightarrow> shortMin (settings (applySettingsFromUI u s)) = Fin 5) \<and>
    (longInput u = [] \<longrightarrow> longMin (settings (applySettingsFromUI u s)) = Fin 15) \<and>
    (goalInput u = [] \<longrightarrow> goalSessions (settings (applySettingsFromUI u s)) = Fin 8) \<and>
    (focusInput u \<noteq> [] \<and> StringToNumber (focusInput u) = Fin xf \<longrightarrow>
       focusMin (settings (applySettingsFromUI u s)) = Fin (max 1 (min 120 xf))) \<and>
    (shortInput u \<noteq> [] \<and> StringToNumber (shortInput u) = Fin xs \<longrightarrow>
       shortMin (settings (applySettingsFromUI u s)) = Fin (max 1 (min 60 xs))) \<and>
    (longInput u \<noteq> [] \<and> StringToNumber (longInput u) = Fin xl \<longrightarrow>
       longMin (settings (applySettingsFromUI u s)) = Fin (max 1 (min 90 xl))) \<and>
    (goalInput u \<noteq> [] \<and> StringToNumber (goalInput u) = Fin xg \<longrightarrow>
       goalSessions (settings (applySettingsFromUI u s)) = Fin (max 1 (min 30 xg)))"
proof -
  define st where "st = settings (applySettingsFromUI u s)"
  have v: "valid_settings st"
    unfolding st_def using assms by (rule applySettings_valid)
  have fields: "theme st = theme (settings s)" "autoStart st = autoStartToggle u"
    "focusMin st = clamp (Number_or (focusInput u) 25) (Fin 1) (Fin 120)"
    "shortMin st = clamp (Number_or (shortInput u) 5) (Fin 1) (Fin 60)"
    "longMin st = clamp (Number_or (longInput u) 15) (Fin 1) (Fin 90)"
    "goalSessions st = clamp (Number_or (goalInput u) 8) (Fin 1) (Fin 30)"
    by (simp_all add: st_def applySettings_settings)
  from v obtain f where f: "json_of_number (focusMin st) = JNum f" "1 \<le> f" "f \<le> 120"
    using in_range_json [of "focusMin st" 1 120] by (auto simp: valid_settings_def)
  from v obtain sh where sh: "json_of_number (shortMin st) = JNum sh" "1 \<le> sh" "sh \<le> 60"
    using in_range_json [of "shortMin st" 1 60] by (auto simp: valid_settings_def)
  from v obtain l where l: "json_of_number (longMin st) = JNum l" "1 \<le> l" "l \<le> 90"
    using in_range_json [of "longMin st" 1 90] by (auto simp: valid_settings_def)
  from v obtain g where g: "json_of_number (goalSessions st) = JNum g" "1 \<le> g" "g \<le> 30"
    using in_range_json [of "goalSessions st" 1 30] by (auto simp: valid_settings_def)
  have "stored_settings (applySettingsFromUI u s) = Some (Json (json_of_settings st))"
    by (simp add: st_def applySettings_stored)
  then have stored: "stored_settings (applySettingsFromUI u s) =
         Some (Json (JObj [(''theme'', JStr (theme (settings s))), (''focusMin'', JNum f),
            (''shortMin'', JNum sh), (''longMin'', JNum l), (''goalSessions'', JNum g),
            (''autoStart'', JBool (autoStartToggle u))]))"
    using f(1) sh(1) l(1) g(1) fields(1,2) by (simp add: json_of_settings_def)
  have blank: "focusInput u = [] \<longrightarrow> focusMin st = Fin 25"
    "shortInput u = [] \<longrightarrow> shortMin st = Fin 5"
    "longInput u = [] \<longrightarrow> longMin st = Fin 15"
    "goalInput u = [] \<longrightarrow> goalSessions st = Fin 8"
    using fields by (simp_all add: clamp_field(1))
  have num: "focusInput u \<noteq> [] \<and> StringToNumber (focusInput u) = Fin xf \<longrightarrow>
       focusMin st = Fin (max 1 (min 120 xf))"
    "shortInput u \<noteq> [] \<and> StringToNumber (shortInput u) = Fin xs \<longrightarrow>
       shortMin st = Fin (max 1 (min 60 xs))"
    "longInput u \<noteq> [] \<and> StringToNumber (longInput u) = Fin xl \<longrightarrow>
       longMin st = Fin (max 1 (min 90 xl))"
    "goalInput u \<noteq> [] \<and> StringToNumber (goalInput u) = Fin xg \<longrightarrow>
       goalSessions st = Fin (max 1 (min 30 xg))"
    using fields by (simp_all add: clamp_field(2))
  from v stored f(2,3) sh(2,3) l(2,3) g(2,3) blank num show ?thesis
    unfolding st_def by blast
qed


theorem settings_input_in_range_witness:
  "numeric_ui form_wide \<and>
   valid_settings (settings (applySettingsFromUI form_wide (init defaults []))) \<and>
   focusMin (settings (applySettingsFromUI form_wide (init defaults []))) = Fin 120 \<and>
   shortMin (settings (applySettingsFromUI form_wide (init defaults []))) = Fin 1 \<and>
   longMin (settings (applySettingsFromUI form_wide (init defaults []))) = Fin 15 \<and>
   goalSessions (settings (applySettingsFromUI form_wide (init defaults []))) = Fin 7.5 \<and>
   (\<exists>f sh l g.
       stored_settings (applySettingsFromUI form_wide (init defaults [])) =
         Some (Json (JObj [(''theme'', JStr ''dark''), (''focusMin'', JNum f),
            (''shortMin'', JNum sh), (''longMin'', JNum l), (''goalSessions'', JNum g),
            (''autoStart'', JBool True)])) \<and>
       1 \<le> f \<and> f \<le> 120 \<and> 1 \<le> sh \<and> sh \<le> 60 \<and> 1 \<le> l \<and> l \<le> 90 \<and> 1 \<le> g \<and> g \<le> 30)"
proof -
  let ?s = "init defaults []"
  have n: "numeric_ui form_wide"
    by (simp add: numeric_ui_def numeric_def sample_numbers)
  note t = settings_input_in_range [OF n, of ?s 500 0 0 "7.5"]
  have th: "theme (settings ?s) = ''dark''" by (simp add: init_defaults)
  from t have a: "valid_settings (settings (applySettingsFromUI form_wide ?s))" by blast
  from t have b: "focusMin (settings (applySettingsFromUI form_wide ?s)) = Fin 120"
    by (simp add: sample_numbers)
  from t have c: "shortMin (settings (applySettingsFromUI form_wide ?s)) = Fin 1"
    by (simp add: sample_numbers)
  from t have d: "longMin (settings (applySettingsFromUI form_wide ?s)) = Fin 15"
    by simp
  from t have e: "goalSessions (settings (applySettingsFromUI form_wide ?s)) = Fin 7.5"
    by (simp add: sample_numbers)
  from t have f: "\<exists>f sh l g.
       stored_settings (applySettingsFromUI form_wide ?s) =
         Some (Json (JObj [(''theme'', JStr ''dark''), (''focusMin'', JNum f),
            (''shortMin'', JNum sh), (''longMin'', JNum l), (''goalSessions'', JNum g),
            (''autoStart'', JBool True)])) \<and>
       1 \<le> f \<and> f \<le> 120 \<and> 1 \<le> sh \<and> sh \<le> 60 \<and> 1 \<le> l \<and> l \<le> 90 \<and> 1 \<le> g \<and> g \<le> 30"
    unfolding th by simp
  from n a b c d e f show ?thesis by blast
qed

text \<open>
  The claim as stated fails: an empty value is replaced by the default and not by the
  bound nearest to \<open>Number("")\<close>, and a value that \<open>Number\<close> does not read, as
  \<open>"abc"\<close>, passes \<open>clamp\<close> as \<open>NaN\<close> and is persisted as \<open>null\<close>.
\<close>

theorem settings_input_counterexample:
  "focusMin (settings (applySettingsFromUI form_blank (init defaults []))) = Fin 25 \<and>
   clamp (StringToNumber (focusInput form_blank)) (Fin 1) (Fin 120) = Fin 1 \<and>
   focusMin (settings (applySettingsFromUI form_abc (init defaults []))) = NaN \<and>
   \<not> in_range (focusMin (settings (applySettingsFromUI form_abc (init defaults [])))) 1 120 \<and>
   stored_settings (applySettingsFromUI form_abc (init defaults [])) =
     Some (Json (JObj [(''theme'', JStr ''dark''), (''focusMin'', JNull),
        (''shortMin'', JNum 5), (''longMin'', JNum 15), (''goalSessions'', JNum 8),
        (''autoStart'', JBool False)]))"
proof -
  let ?s = "init defaults []"
  have a: "focusMin (settings (applySettingsFromUI form_blank ?s)) = Fin 25"
    by (simp add: applySettings_settings clamp_field(1))
  have b: "clamp (StringToNumber (focusInput form_blank)) (Fin 1) (Fin 120) = Fin 1"
    by (simp add: sample_numbers clamp_Fin)
  have c: "focusMin (settings (applySettingsFromUI form_abc ?s)) = NaN"
    by (simp add: applySettings_settings clamp_field(3) sample_numbers)
  have d: "\<not> in_range (focusMin (settings (applySettingsFromUI form_abc ?s))) 1 120"
    unfolding c by (simp add: in_range_def)
  have s0: "settings ?s = defaults" by (simp add: init_defaults)
  have st: "settings (applySettingsFromUI form_abc ?s) =
     \<lparr>theme = ''dark'', focusMin = NaN, shortMin = Fin 5, longMin = Fin 15,
      goalSessions = Fin 8, autoStart = False\<rparr>"
    unfolding applySettings_settings s0
    by (simp add: defaults_def Number_or_def sample_numbers clamp_def)
  have e: "stored_settings (applySettingsFromUI form_abc ?s) =
     Some (Json (JObj [(''theme'', JStr ''dark''), (''focusMin'', JNull),
        (''shortMin'', JNum 5), (''longMin'', JNum 15), (''goalSessions'', JNum 8),
        (''autoStart'', JBool False)]))"
    unfolding applySettings_stored st by (simp add: json_of_settings_def)
  from a b c d e show ?thesis by blast
qed

end
